theory Spec2Isabelle
  imports
    Complex_Main
    "HOL-Library.Sublist"
    "HOL-Library.Multiset"
    "HOL-Library.Char_ord"
    "HOL-Library.List_Lexorder"
begin

section \<open>pdf-cli: the merge and compress commands of \<^verbatim>\<open>pdf.py\<close>\<close>

text \<open>
  The program is CLI plumbing around the PyPDF2 library and the operating system.
  Neither is part of the program, so both are parameters of the model: a record of
  the answers the operating system gives (\<open>os\<close>) and a record of the outcomes of
  the library calls (\<open>pdflib\<close>). Every function of \<^verbatim>\<open>pdf.py\<close> is a function of
  these records and of its own arguments; what it prints and what it writes to disk are
  returned as part of its result.

  A path is a \<open>string\<close>; a character stands for a code point below 256.
\<close>

subsection \<open>Exceptions, pages, console lines\<close>

datatype exn =
    FileNotFoundError
  | ZeroDivisionError
  | Abort  \<comment> \<open>raised by \<^verbatim>\<open>click.confirm(..., abort=True)\<close> when the user declines\<close>
  | OtherError string  \<comment> \<open>any other \<^verbatim>\<open>Exception\<close>, with its text\<close>

text \<open>A page of a PDF document: the file it was read from and its index there, and
  whether its content streams have been compressed.\<close>

datatype page = Page string nat bool

text \<open>One constructor for each \<^verbatim>\<open>click.echo\<close> of the source, holding the values that
  the format string interpolates.\<close>

datatype msg =
    Found nat  \<comment> \<open>\<^verbatim>\<open>Found {len(pdfs)} PDFs to merge:\<close>\<close>
  | Item nat string  \<comment> \<open>\<^verbatim>\<open>{index+1:>3} {pdf}\<close>\<close>
  | Appended string  \<comment> \<open>\<^verbatim>\<open>Appended `{file}`\<close>\<close>
  | NotFoundSkipping string  \<comment> \<open>\<^verbatim>\<open>File `{file}` not found. Skipping\<close>\<close>
  | ErrorAppending string exn  \<comment> \<open>\<^verbatim>\<open>Error appending `{file}: {e}`. Skipping\<close>\<close>
  | SortingBy string bool  \<comment> \<open>\<^verbatim>\<open>Sorting PDFs by {sort_option} in {descending|ascending} order.\<close>\<close>
  | NoPdfsFound  \<comment> \<open>\<^verbatim>\<open>No PDFs found.\<close>\<close>
  | ConfirmPrompt  \<comment> \<open>\<^verbatim>\<open>Are you sure you want to merge these PDFs?\<close>\<close>
  | Merged int string  \<comment> \<open>\<^verbatim>\<open>Merged {merged_count} PDFs to `{output_file}`.\<close>\<close>
  | NoValidPdfs  \<comment> \<open>\<^verbatim>\<open>No valid PDFs found to merge.\<close>\<close>
  | Compressed string string  \<comment> \<open>\<^verbatim>\<open>Compressed `{file}` to `{output_file}`.\<close>\<close>
  | SizeBefore int  \<comment> \<open>\<^verbatim>\<open>File size before: {size_before} bytes\<close>\<close>
  | SizeAfter int rat  \<comment> \<open>\<^verbatim>\<open>File size after: {size_after} bytes ({...:.2f}%)\<close>\<close>

text \<open>The result of running a function: the lines it printed, the files it created or
  overwritten (with the document written), and either the value returned or the
  exception that left the function.\<close>

record 'a run =
  console :: "msg list"
  written :: "(string \<times> page list) list"
  outcome :: "exn + 'a"

subsection \<open>The operating system and the PDF library\<close>

record os =
  isfile :: "string \<Rightarrow> bool"  \<comment> \<open>\<^verbatim>\<open>os.path.isfile\<close>: the path exists and is a regular file\<close>
  getsize :: "string \<Rightarrow> exn + int"  \<comment> \<open>\<^verbatim>\<open>os.path.getsize\<close>\<close>
  getmtime :: "string \<Rightarrow> exn + rat"  \<comment> \<open>\<^verbatim>\<open>os.path.getmtime\<close>\<close>
  path_join :: "string \<Rightarrow> string \<Rightarrow> string"  \<comment> \<open>\<^verbatim>\<open>os.path.join\<close>\<close>
  glob :: "string \<Rightarrow> string list"  \<comment> \<open>\<^verbatim>\<open>glob.glob\<close>\<close>
  readlines :: "string \<Rightarrow> exn + string list"  \<comment> \<open>\<^verbatim>\<open>open(p, "r")\<close> and \<^verbatim>\<open>f.readlines()\<close>\<close>

text \<open>
  \<^item> \<open>append\<close>: \<^verbatim>\<open>PdfMerger.append(file)\<close>, either the pages it adds to the merger or
    the exception it raises; a call that raises adds no page.
  \<^item> \<open>merger_write\<close>: \<^verbatim>\<open>PdfMerger.write(output_file)\<close> of the accumulated pages,
    \<open>None\<close> when it completes.
  \<^item> \<open>pdfreader\<close>: \<^verbatim>\<open>PdfReader(file)\<close>, then one entry for each page that iterating
    \<^verbatim>\<open>reader.pages\<close> fetches: the page, or the exception raised on fetching it.
  \<^item> \<open>compress_content_streams\<close>: \<^verbatim>\<open>page.compress_content_streams()\<close>, the page as
    it is afterwards.
  \<^item> \<open>writer_write\<close>: \<^verbatim>\<open>open(output_file, "wb")\<close> and \<^verbatim>\<open>writer.write(f)\<close>; on success
    the byte size of the file produced, which \<^verbatim>\<open>os.path.getsize(output_file)\<close> then
    reads.
\<close>

record pdflib =
  append :: "string \<Rightarrow> exn + page list"
  merger_write :: "string \<Rightarrow> page list \<Rightarrow> exn option"
  pdfreader :: "string \<Rightarrow> exn + (exn + page) list"
  compress_content_streams :: "page \<Rightarrow> exn + page"
  writer_write :: "string \<Rightarrow> page list \<Rightarrow> exn + int"

subsection \<open>String methods\<close>

definition endswith :: "string \<Rightarrow> string \<Rightarrow> bool" where
  "endswith s suf = (length suf \<le> length s \<and> drop (length s - length suf) s = suf)"

definition startswith :: "string \<Rightarrow> string \<Rightarrow> bool" where
  "startswith s pre = (take (length pre) s = pre)"

definition lower_char :: "char \<Rightarrow> char" where
  "lower_char c =
     (let n = (of_char c :: nat)
      in if (65 \<le> n \<and> n \<le> 90) \<or> (192 \<le> n \<and> n \<le> 222 \<and> n \<noteq> 215)
         then char_of (n + 32) else c)"

definition lower :: "string \<Rightarrow> string" where
  "lower s = map lower_char s"

definition isspace :: "char \<Rightarrow> bool" where
  "isspace c =
     (let n = (of_char c :: nat)
      in (9 \<le> n \<and> n \<le> 13) \<or> (28 \<le> n \<and> n \<le> 32) \<or> n = 133 \<or> n = 160)"

definition strip :: "string \<Rightarrow> string" where
  "strip s = rev (dropWhile isspace (rev (dropWhile isspace s)))"

subsection \<open>\<^verbatim>\<open>_check_pdfs\<close>\<close>

text \<open>\<^verbatim>\<open>[pdf for pdf in pdfs if os.path.isfile(pdf) and pdf.endswith(".pdf")]\<close>\<close>

fun check_pdfs :: "os \<Rightarrow> string list \<Rightarrow> string list" where
  "check_pdfs sys [] = []"
| "check_pdfs sys (pdf # pdfs) =
     (if isfile sys pdf \<and> endswith pdf ''.pdf'' then pdf # check_pdfs sys pdfs
      else check_pdfs sys pdfs)"

subsection \<open>\<^verbatim>\<open>_display_pdfs\<close>\<close>

fun display_items :: "nat \<Rightarrow> string list \<Rightarrow> msg list" where
  "display_items index [] = []"
| "display_items index (pdf # pdfs) = Item (index + 1) pdf # display_items (index + 1) pdfs"

definition display_pdfs :: "string list \<Rightarrow> msg list" where
  "display_pdfs pdfs = Found (length pdfs) # display_items 0 pdfs"

subsection \<open>\<^verbatim>\<open>_merge_pdfs\<close>\<close>

text \<open>The loop over \<open>files\<close>. Its state is the console, the merger's pages and
  \<open>merged_count\<close>. \<^verbatim>\<open>except FileNotFoundError\<close> comes before \<^verbatim>\<open>except Exception\<close>.\<close>

fun append_all ::
  "pdflib \<Rightarrow> string list \<Rightarrow> msg list \<times> page list \<times> int \<Rightarrow> msg list \<times> page list \<times> int" where
  "append_all lib [] st = st"
| "append_all lib (file # files) (con, pages, merged_count) =
     (case append lib file of
        Inr ps \<Rightarrow> append_all lib files (con @ [Appended file], pages @ ps, merged_count + 1)
      | Inl FileNotFoundError \<Rightarrow> append_all lib files (con @ [NotFoundSkipping file], pages, merged_count)
      | Inl e \<Rightarrow> append_all lib files (con @ [ErrorAppending file e], pages, merged_count))"

text \<open>\<^verbatim>\<open>if merger.pages:\<close> guards the write. The \<^verbatim>\<open>click.style("Merging PDFs...")\<close> of
  the source is not echoed, so it prints nothing.\<close>

definition merge_pdfs :: "pdflib \<Rightarrow> string list \<Rightarrow> string \<Rightarrow> (string \<times> int) run" where
  "merge_pdfs lib files output_file =
     (case append_all lib files ([], [], 0) of
        (con, pages, merged_count) \<Rightarrow>
          if pages \<noteq> [] then
            (case merger_write lib output_file pages of
               Some e \<Rightarrow> \<lparr>console = con, written = [], outcome = Inl e\<rparr>
             | None \<Rightarrow> \<lparr>console = con, written = [(output_file, pages)],
                        outcome = Inr (output_file, merged_count)\<rparr>)
          else \<lparr>console = con, written = [], outcome = Inr (output_file, merged_count)\<rparr>)"

subsection \<open>\<^verbatim>\<open>_sort_pdfs\<close>\<close>

text \<open>\<^verbatim>\<open>list.sort(key=..., reverse=...)\<close>: the keys are computed first, one call of the
  key function for each element in order, and an exception of the key function leaves
  the sort. The sort is stable; with \<^verbatim>\<open>reverse=True\<close> the list is reversed, sorted,
  and reversed again, so that equal keys keep their order.\<close>

fun sort_keys :: "('a \<Rightarrow> exn + 'k) \<Rightarrow> 'a list \<Rightarrow> exn + 'k list" where
  "sort_keys key [] = Inr []"
| "sort_keys key (x # xs) =
     (case key x of
        Inl e \<Rightarrow> Inl e
      | Inr k \<Rightarrow> (case sort_keys key xs of Inl e \<Rightarrow> Inl e | Inr ks \<Rightarrow> Inr (k # ks)))"

definition list_sort :: "('a \<Rightarrow> exn + 'k::linorder) \<Rightarrow> bool \<Rightarrow> 'a list \<Rightarrow> exn + 'a list" where
  "list_sort key reverse xs =
     (case sort_keys key xs of
        Inl e \<Rightarrow> Inl e
      | Inr ks \<Rightarrow>
          Inr (map snd (if reverse then rev (sort_key fst (rev (zip ks xs)))
                        else sort_key fst (zip ks xs))))"

definition sort_pdfs :: "os \<Rightarrow> string list \<Rightarrow> string option \<Rightarrow> msg list \<times> (exn + string list)" where
  "sort_pdfs sys files sort_option =
     (case sort_option of
        None \<Rightarrow> ([], Inr files)
      | Some opt \<Rightarrow>
          if opt = [] then ([], Inr files)
          else
            let reverse_order = startswith opt ''^'';
                opt' = (if reverse_order then drop 1 opt else opt)
            in if opt' = ''name'' then
                 ([SortingBy opt' reverse_order],
                  list_sort (\<lambda>name. Inr (lower name)) reverse_order files)
               else if opt' = ''date'' then
                 ([SortingBy opt' reverse_order], list_sort (getmtime sys) reverse_order files)
               else if opt' = ''size'' then
                 ([SortingBy opt' reverse_order], list_sort (getsize sys) reverse_order files)
               else ([], Inr files))"

subsection \<open>\<^verbatim>\<open>_compress_pdf\<close>\<close>

text \<open>The loop over \<^verbatim>\<open>reader.pages\<close>; \<open>added\<close> holds the pages given to
  \<^verbatim>\<open>writer.add_page\<close> so far.\<close>

fun compress_pages :: "pdflib \<Rightarrow> (exn + page) list \<Rightarrow> page list \<Rightarrow> exn + page list" where
  "compress_pages lib [] added = Inr added"
| "compress_pages lib (r # rs) added =
     (case r of
        Inl e \<Rightarrow> Inl e
      | Inr page \<Rightarrow>
          (case compress_content_streams lib page of
             Inl e \<Rightarrow> Inl e
           | Inr page' \<Rightarrow> compress_pages lib rs (added @ [page'])))"

definition compress_pdf :: "pdflib \<Rightarrow> string \<Rightarrow> string \<Rightarrow> (string \<times> int) run" where
  "compress_pdf lib file output_file =
     (case pdfreader lib file of
        Inl e \<Rightarrow> \<lparr>console = [], written = [], outcome = Inl e\<rparr>
      | Inr reads \<Rightarrow>
          (case compress_pages lib reads [] of
             Inl e \<Rightarrow> \<lparr>console = [], written = [], outcome = Inl e\<rparr>
           | Inr pages \<Rightarrow>
               (case writer_write lib output_file pages of
                  Inl e \<Rightarrow> \<lparr>console = [], written = [], outcome = Inl e\<rparr>
                | Inr size_after \<Rightarrow>
                    \<lparr>console = [], written = [(output_file, pages)],
                     outcome = Inr (output_file, size_after)\<rparr>)))"

subsection \<open>The \<^verbatim>\<open>merge\<close> command\<close>

text \<open>Lines 173 to 183: the candidate paths. \<open>files\<close> is the tuple of positional
  arguments, \<open>from_list\<close> the value of \<^verbatim>\<open>--from-list\<close> (\<open>None\<close> when absent).\<close>

definition candidates ::
  "os \<Rightarrow> string list \<Rightarrow> string \<Rightarrow> string \<Rightarrow> string option \<Rightarrow> exn + string list" where
  "candidates sys files dir pattern from_list =
     (if files \<noteq> [] then Inr (map (path_join sys dir) files)
      else if from_list \<noteq> None \<and> from_list \<noteq> Some [] then
        (case readlines sys (the from_list) of
           Inl e \<Rightarrow> Inl e
         | Inr lines \<Rightarrow> Inr (map strip (filter (\<lambda>line. endswith (strip line) ''.pdf'') lines)))
      else Inr (glob sys (path_join sys dir pattern)))"

text \<open>Lines 185 to 205. \<open>answer\<close> is what the user replies to the confirmation prompt,
  asked only when \<open>yes\<close> is not set; \<open>sort_opt\<close> is the value of \<^verbatim>\<open>--sort\<close>.\<close>

definition merge ::
  "os \<Rightarrow> pdflib \<Rightarrow> bool \<Rightarrow> bool \<Rightarrow> string list \<Rightarrow> string \<Rightarrow> string \<Rightarrow> string option \<Rightarrow>
     string option \<Rightarrow> string \<Rightarrow> unit run" where
  "merge sys lib answer yes files dir pattern from_list sort_opt output =
     (case candidates sys files dir pattern from_list of
        Inl e \<Rightarrow> \<lparr>console = [], written = [], outcome = Inl e\<rparr>
      | Inr found \<Rightarrow>
          let pdfs = check_pdfs sys found;
              con1 = display_pdfs pdfs;
              (con2, res) = (if sort_opt \<noteq> None \<and> sort_opt \<noteq> Some [] then sort_pdfs sys pdfs sort_opt
                                else ([], Inr pdfs))
          in case res of
               Inl e \<Rightarrow> \<lparr>console = con1 @ con2, written = [], outcome = Inl e\<rparr>
             | Inr pdfs' \<Rightarrow>
                 if pdfs' = [] then
                   \<lparr>console = con1 @ con2 @ [NoPdfsFound], written = [], outcome = Inr ()\<rparr>
                 else if \<not> yes \<and> \<not> answer then
                   \<lparr>console = con1 @ con2 @ [ConfirmPrompt], written = [], outcome = Inl Abort\<rparr>
                 else
                   let con3 = (if \<not> yes then [ConfirmPrompt] else []);
                       r = merge_pdfs lib pdfs' output
                   in case outcome r of
                        Inl e \<Rightarrow> \<lparr>console = con1 @ con2 @ con3 @ console r,
                                  written = written r, outcome = Inl e\<rparr>
                      | Inr (output_file, merged_count) \<Rightarrow>
                          \<lparr>console = con1 @ con2 @ con3 @ console r @
                             [if merged_count \<noteq> 0 then Merged merged_count output_file
                              else NoValidPdfs],
                           written = written r, outcome = Inr ()\<rparr>)"

subsection \<open>The \<^verbatim>\<open>compress\<close> command\<close>

text \<open>\<^verbatim>\<open>(size_before - size_after) / size_before * 100\<close> on Python integers: true
  division, which raises on a zero divisor. The value is kept exact here; the source
  rounds it to a float and prints it with two decimals.\<close>

definition reduction :: "int \<Rightarrow> int \<Rightarrow> exn + rat" where
  "reduction size_before size_after =
     (if size_before = 0 then Inl ZeroDivisionError
      else Inr (rat_of_int (size_before - size_after) / rat_of_int size_before * 100))"

text \<open>The first two lines are echoed before the third one is formatted.\<close>

definition compress :: "os \<Rightarrow> pdflib \<Rightarrow> string \<Rightarrow> string \<Rightarrow> unit run" where
  "compress sys lib file output =
     (case getsize sys file of
        Inl e \<Rightarrow> \<lparr>console = [], written = [], outcome = Inl e\<rparr>
      | Inr size_before \<Rightarrow>
          let r = compress_pdf lib file output
          in case outcome r of
               Inl e \<Rightarrow> \<lparr>console = [], written = written r, outcome = Inl e\<rparr>
             | Inr (output_file, size_after) \<Rightarrow>
                 let con = [Compressed file output_file, SizeBefore size_before]
                 in case reduction size_before size_after of
                      Inl e \<Rightarrow> \<lparr>console = con, written = written r, outcome = Inl e\<rparr>
                    | Inr percent \<Rightarrow>
                        \<lparr>console = con @ [SizeAfter size_after percent],
                         written = written r, outcome = Inr ()\<rparr>)"

subsection \<open>Reading the console\<close>

text \<open>The paths of the numbered preview, in the order printed, and the files that
  \<^verbatim>\<open>_merge_pdfs\<close> tried to append, in the order tried (each attempt prints one line).\<close>

fun preview_of :: "msg \<Rightarrow> string option" where
  "preview_of (Item index pdf) = Some pdf"
| "preview_of m = None"

fun attempt_of :: "msg \<Rightarrow> string option" where
  "attempt_of (Appended file) = Some file"
| "attempt_of (NotFoundSkipping file) = Some file"
| "attempt_of (ErrorAppending file e) = Some file"
| "attempt_of m = None"


fun is_report :: "msg \<Rightarrow> bool" where
  "is_report (Compressed file output_file) = True"
| "is_report (SizeBefore n) = True"
| "is_report (SizeAfter n percent) = True"
| "is_report m = False"

definition previewed :: "msg list \<Rightarrow> string list" where
  "previewed con = List.map_filter preview_of con"

definition attempted :: "msg list \<Rightarrow> string list" where
  "attempted con = List.map_filter attempt_of con"

subsection \<open>Vocabulary of the properties\<close>

text \<open>The line that one pass of the merge loop prints for \<open>file\<close>, the pages that the
  files of a list contribute to the merger (a file that fails contributes none), and
  the files of a list that append without an exception.\<close>

definition append_line :: "pdflib \<Rightarrow> string \<Rightarrow> msg" where
  "append_line lib file =
     (case append lib file of
        Inr ps \<Rightarrow> Appended file
      | Inl FileNotFoundError \<Rightarrow> NotFoundSkipping file
      | Inl e \<Rightarrow> ErrorAppending file e)"

definition pages_of :: "pdflib \<Rightarrow> string \<Rightarrow> page list" where
  "pages_of lib file = (case append lib file of Inr ps \<Rightarrow> ps | Inl e \<Rightarrow> [])"

definition appended_pages :: "pdflib \<Rightarrow> string list \<Rightarrow> page list" where
  "appended_pages lib files = concat (map (pages_of lib) files)"

definition appends :: "pdflib \<Rightarrow> string \<Rightarrow> bool" where
  "appends lib file = (case append lib file of Inr ps \<Rightarrow> True | Inl e \<Rightarrow> False)"

text \<open>Whether a page is fetched and its content streams are compressed without an
  exception, and whether every step of \<^verbatim>\<open>_compress_pdf\<close> completes.\<close>

definition page_ok :: "pdflib \<Rightarrow> exn + page \<Rightarrow> bool" where
  "page_ok lib r =
     (case r of
        Inl e \<Rightarrow> False
      | Inr page \<Rightarrow> (case compress_content_streams lib page of Inl e \<Rightarrow> False | Inr page' \<Rightarrow> True))"

definition compressed_page :: "pdflib \<Rightarrow> exn + page \<Rightarrow> page list" where
  "compressed_page lib r =
     (case r of
        Inl e \<Rightarrow> []
      | Inr page \<Rightarrow> (case compress_content_streams lib page of Inl e \<Rightarrow> [] | Inr page' \<Rightarrow> [page']))"

definition steps_ok :: "pdflib \<Rightarrow> string \<Rightarrow> string \<Rightarrow> bool" where
  "steps_ok lib file output_file =
     (case pdfreader lib file of
        Inl e \<Rightarrow> False
      | Inr reads \<Rightarrow>
          list_all (page_ok lib) reads \<and>
          (case writer_write lib output_file (concat (map (compressed_page lib) reads)) of
             Inl e \<Rightarrow> False
           | Inr n \<Rightarrow> True))"

text \<open>Whether \<open>e\<close> is an exception that one of the library calls of
  \<^verbatim>\<open>_compress_pdf\<close> raises on this input.\<close>

definition raised_by :: "pdflib \<Rightarrow> string \<Rightarrow> string \<Rightarrow> exn \<Rightarrow> bool" where
  "raised_by lib file output_file e =
     (case pdfreader lib file of
        Inl e' \<Rightarrow> e = e'
      | Inr reads \<Rightarrow>
          list_ex (\<lambda>r. case r of
                          Inl e' \<Rightarrow> e = e'
                        | Inr page \<Rightarrow> compress_content_streams lib page = Inl e) reads \<or>
          writer_write lib output_file (concat (map (compressed_page lib) reads)) = Inl e)"

subsection \<open>A sample directory\<close>

text \<open>The directory \<^verbatim>\<open>/docs\<close> holds \<^verbatim>\<open>b.pdf\<close> and \<^verbatim>\<open>a.pdf\<close> of one page each,
  \<^verbatim>\<open>blank.pdf\<close> whose page tree is empty, \<^verbatim>\<open>locked.pdf\<close> which the library cannot
  read, \<^verbatim>\<open>torn.pdf\<close> whose second page cannot be fetched, and the text files
  \<^verbatim>\<open>notes.txt\<close> and \<^verbatim>\<open>list.txt\<close>, the latter naming \<^verbatim>\<open>notes.txt\<close> only.
  \<^verbatim>\<open>/dev/stdin\<close> is a pipe that delivers a PDF of one page; the size of a pipe is 0.
  Nothing can be written below \<^verbatim>\<open>/ro\<close>.\<close>

definition posix_join :: "string \<Rightarrow> string \<Rightarrow> string" where
  "posix_join a b =
     (if startswith b ''/'' then b
      else if a = [] \<or> endswith a ''/'' then a @ b
      else a @ ''/'' @ b)"

definition docs_os :: os where
  "docs_os =
     \<lparr>isfile = (\<lambda>p. p \<in> set [''/docs/b.pdf'', ''/docs/a.pdf'', ''/docs/blank.pdf'',
                               ''/docs/locked.pdf'', ''/docs/torn.pdf'', ''/docs/notes.txt'',
                               ''/docs/list.txt'']),
      getsize = (\<lambda>p. if p = ''/docs/a.pdf'' then Inr 300
                      else if p = ''/docs/b.pdf'' then Inr 100
                      else if p = ''/docs/torn.pdf'' then Inr 700
                      else if p = ''/dev/stdin'' then Inr 0
                      else Inl FileNotFoundError),
      getmtime = (\<lambda>p. if p = ''/docs/a.pdf'' then Inr 20
                       else if p = ''/docs/b.pdf'' then Inr 10
                       else Inl FileNotFoundError),
      path_join = posix_join,
      glob = (\<lambda>p. if p = ''/docs/*.pdf''
                   then [''/docs/b.pdf'', ''/docs/a.pdf'', ''/docs/blank.pdf''] else []),
      readlines = (\<lambda>p. if p = ''/docs/list.txt'' then Inr [''/docs/notes.txt'' @ [CHR 0x0A]]
                        else Inl FileNotFoundError)\<rparr>"

definition docs_lib :: pdflib where
  "docs_lib =
     \<lparr>append = (\<lambda>p. if p = ''/docs/a.pdf'' then Inr [Page ''/docs/a.pdf'' 0 False]
                     else if p = ''/docs/b.pdf'' then Inr [Page ''/docs/b.pdf'' 0 False]
                     else if p = ''/docs/blank.pdf'' then Inr []
                     else if p = ''/docs/locked.pdf'' then Inl (OtherError ''File has not been decrypted'')
                     else Inl FileNotFoundError),
      merger_write = (\<lambda>p pages. if startswith p ''/ro/'' then Some (OtherError ''Read-only file system'')
                                 else None),
      pdfreader = (\<lambda>p. if p = ''/docs/a.pdf'' \<or> p = ''/docs/b.pdf'' \<or> p = ''/dev/stdin''
                        then Inr [Inr (Page p 0 False)]
                        else if p = ''/docs/torn.pdf''
                        then Inr [Inr (Page p 0 False), Inl (OtherError ''Could not read object'')]
                        else Inl FileNotFoundError),
      compress_content_streams = (\<lambda>page. case page of Page f i c \<Rightarrow> Inr (Page f i True)),
      writer_write = (\<lambda>p pages. if startswith p ''/ro/'' then Inl (OtherError ''Read-only file system'')
                                 else Inr (250 * int (length pages)))\<rparr>"

section \<open>The validator\<close>

lemma endswith_suffix: "endswith s suf \<longleftrightarrow> suffix suf s"
proof
  assume "endswith s suf"
  then have "s = take (length s - length suf) s @ suf"
    by (metis append_take_drop_id endswith_def)
  then show "suffix suf s"
    by (metis suffixI)
next
  assume "suffix suf s"
  then obtain stem where "s = stem @ suf"
    by (auto simp: suffix_def)
  then show "endswith s suf"
    by (simp add: endswith_def)
qed

lemma check_pdfs_filter:
  "check_pdfs sys pdfs = filter (\<lambda>pdf. isfile sys pdf \<and> endswith pdf ''.pdf'') pdfs"
  by (induction pdfs) simp_all

text \<open>
  C6. For every sequence of candidate paths, the validator returns exactly the
  subsequence of the paths that are regular files on disk and whose name ends with the
  suffix \<^verbatim>\<open>.pdf\<close>, compared exactly (so case-sensitively), in the order of the input.
  The function is total: a path that does not exist or has another suffix is dropped,
  and there is no exception.
\<close>

theorem check_pdfs_subsequence:
  "check_pdfs sys pdfs = filter (\<lambda>pdf. isfile sys pdf \<and> suffix ''.pdf'' pdf) pdfs \<and>
   subseq (check_pdfs sys pdfs) pdfs"
  by (simp add: check_pdfs_filter endswith_suffix)

text \<open>
  C10. The validator is idempotent: a second pass over its own result, on the same
  file system, drops nothing.
\<close>

theorem check_pdfs_idempotent:
  "check_pdfs sys (check_pdfs sys pdfs) = check_pdfs sys pdfs"
  by (simp add: check_pdfs_filter)

section \<open>The merger\<close>

lemma append_all_eq:
  "append_all lib files (con, pages, n) =
     (con @ map (append_line lib) files, pages @ appended_pages lib files,
      n + int (length (filter (appends lib) files)))"
proof (induction files arbitrary: con pages n)
  case Nil
  then show ?case by (simp add: appended_pages_def)
next
  case (Cons f fs)
  show ?case
  proof (cases "append lib f")
    case (Inl e)
    then show ?thesis
      using Cons.IH
      by (cases e) (simp_all add: append_line_def appended_pages_def pages_of_def appends_def)
  next
    case (Inr ps)
    then show ?thesis
      using Cons.IH by (simp add: append_line_def appended_pages_def pages_of_def appends_def)
  qed
qed

lemma merge_pdfs_eq:
  "merge_pdfs lib files output_file =
     (if appended_pages lib files \<noteq> [] then
        (case merger_write lib output_file (appended_pages lib files) of
           Some e \<Rightarrow> \<lparr>console = map (append_line lib) files, written = [], outcome = Inl e\<rparr>
         | None \<Rightarrow> \<lparr>console = map (append_line lib) files,
                    written = [(output_file, appended_pages lib files)],
                    outcome = Inr (output_file, int (length (filter (appends lib) files)))\<rparr>)
      else \<lparr>console = map (append_line lib) files, written = [],
            outcome = Inr (output_file, int (length (filter (appends lib) files)))\<rparr>)"
  by (simp add: merge_pdfs_def append_all_eq)

lemma console_merge_pdfs:
  "console (merge_pdfs lib files output_file) = map (append_line lib) files"
  by (simp add: merge_pdfs_eq split: option.splits)




lemma attempt_line: "attempt_of (append_line lib f) = Some f"
  by (auto simp: append_line_def split: sum.splits exn.splits)

lemma preview_line: "preview_of (append_line lib f) = None"
  by (auto simp: append_line_def split: sum.splits exn.splits)

lemma attempted_lines: "attempted (map (append_line lib) files) = files"
  by (induction files) (simp_all add: attempted_def map_filter_def attempt_line)

text \<open>
  C9, as amended. Whenever \<^verbatim>\<open>_merge_pdfs\<close> returns, it returns the output filename it
  was given, unchanged, with a count between 0 and the number of input files. It returns
  on every input but one kind: when pages were appended and the library raises while
  writing them, that exception leaves the function.
\<close>

theorem merge_pdfs_returns_pair:
  "case outcome (merge_pdfs lib files output_file) of
     Inr (name, merged_count) \<Rightarrow>
       name = output_file \<and> 0 \<le> merged_count \<and> merged_count \<le> int (length files)
   | Inl e \<Rightarrow>
       appended_pages lib files \<noteq> [] \<and>
       merger_write lib output_file (appended_pages lib files) = Some e"
  by (auto simp: merge_pdfs_eq split: option.splits)

theorem merge_pdfs_returns_pair_sample:
  "merger_write docs_lib ''merged.pdf''
     (appended_pages docs_lib [''/docs/a.pdf'', ''/docs/missing.pdf'', ''/docs/b.pdf'']) = None \<and>
   (\<exists>merged_count.
      outcome (merge_pdfs docs_lib [''/docs/a.pdf'', ''/docs/missing.pdf'', ''/docs/b.pdf'']
        ''merged.pdf'') = Inr (''merged.pdf'', merged_count) \<and>
      0 \<le> merged_count \<and> merged_count \<le> 3)"
proof -
  have w: "merger_write docs_lib ''merged.pdf''
     (appended_pages docs_lib [''/docs/a.pdf'', ''/docs/missing.pdf'', ''/docs/b.pdf'']) = None"
    by code_simp
  show ?thesis
    using w merge_pdfs_returns_pair
      [of docs_lib "[''/docs/a.pdf'', ''/docs/missing.pdf'', ''/docs/b.pdf'']" "''merged.pdf''"]
    by (auto split: sum.splits)
qed

text \<open>Below \<^verbatim>\<open>/ro\<close> the write raises, and no pair is returned.\<close>

theorem merge_pdfs_write_raises:
  "outcome (merge_pdfs docs_lib [''/docs/a.pdf''] ''/ro/merged.pdf'') =
     Inl (OtherError ''Read-only file system'')"
  by code_simp







section \<open>The sorter\<close>

lemma sort_keys_pure: "sort_keys (\<lambda>x. Inr (f x)) xs = Inr (map f xs)"
  by (induction xs) simp_all

lemma insort_decorated:
  "\<forall>p \<in> set ps. fst p = f (snd p) \<Longrightarrow>
   map snd (insort_key fst (f x, x) ps) = insort_key f x (map snd ps)"
  by (induction ps) auto

lemma sort_decorated:
  "\<forall>p \<in> set ps. fst p = f (snd p) \<Longrightarrow> map snd (sort_key fst ps) = sort_key f (map snd ps)"
proof (induction ps)
  case Nil
  then show ?case by simp
next
  case (Cons p ps)
  have "\<forall>q \<in> set (sort_key fst ps). fst q = f (snd q)"
    using Cons.prems by simp
  then have "map snd (insort_key fst (f (snd p), snd p) (sort_key fst ps)) =
             insort_key f (snd p) (map snd (sort_key fst ps))"
    by (rule insort_decorated)
  moreover have "p = (f (snd p), snd p)"
    using Cons.prems by (cases p) simp
  ultimately show ?case
    using Cons by (metis list.set_intros(2) list.simps(9) sort_key_simps(2))
qed

lemma zip_keys: "\<forall>p \<in> set (zip (map f xs) xs). fst p = f (snd p)"
  by (induction xs) auto

text \<open>With a key function that raises nothing, \<^verbatim>\<open>list.sort\<close> is the stable sort by
  the key, and with \<^verbatim>\<open>reverse=True\<close> the reversal of the stable sort of the reversed
  list.\<close>

lemma list_sort_pure:
  "list_sort (\<lambda>x. Inr (f x)) reverse xs =
     Inr (if reverse then rev (sort_key f (rev xs)) else sort_key f xs)"
proof -
  have fwd: "map snd (sort_key fst (zip (map f xs) xs)) = sort_key f xs"
    using sort_decorated [OF zip_keys [of f xs]] by simp
  have "rev (zip (map f xs) xs) = zip (map f (rev xs)) (rev xs)"
    using zip_rev [of "map f xs" xs] by (simp add: rev_map)
  then have "map snd (sort_key fst (rev (zip (map f xs) xs))) = sort_key f (rev xs)"
    using sort_decorated [OF zip_keys [of f "rev xs"]] by simp
  then have "map snd (rev (sort_key fst (rev (zip (map f xs) xs)))) = rev (sort_key f (rev xs))"
    by (metis rev_map)
  then show ?thesis
    using fwd by (simp add: list_sort_def sort_keys_pure)
qed

lemma sort_pdfs_name:
  "sort_pdfs sys files (Some ''name'') = ([SortingBy ''name'' False], Inr (sort_key lower files))"
  by (simp add: sort_pdfs_def startswith_def list_sort_pure)

lemma sort_pdfs_name_desc:
  "sort_pdfs sys files (Some ''^name'') =
     ([SortingBy ''name'' True], Inr (rev (sort_key lower (rev files))))"
  by (simp add: sort_pdfs_def startswith_def list_sort_pure)

lemma sort_key_rev_distinct:
  assumes "distinct (map f xs)"
  shows "sort_key f (rev xs) = sort_key f xs"
proof (rule sort_key_inj_key_eq)
  show "mset (rev xs) = mset (sort_key f xs)" by simp
  show "inj_on f (set (rev xs))" using assms by (simp add: distinct_map)
  show "sorted (map f (sort_key f xs))" by simp
qed

lemma sort_pdfs_console:
  "fst (sort_pdfs sys files sort_option) = [] \<or>
   (\<exists>opt reverse_order. fst (sort_pdfs sys files sort_option) = [SortingBy opt reverse_order])"
  by (auto simp: sort_pdfs_def Let_def split: option.splits)

text \<open>
  C7. Sorting with \<^verbatim>\<open>name\<close> returns a permutation of the list whose lower-cased paths
  ascend in the lexicographic order of strings, and it is stable: the paths with one and
  the same lower-cased name keep their relative order. When the lower-cased names are
  pairwise distinct, sorting with \<^verbatim>\<open>^name\<close> returns the exact reverse of that list.
  Without a sort option the list comes back as it was, and nothing is printed.
\<close>

theorem sort_pdfs_by_name:
  "(\<exists>ordered. snd (sort_pdfs sys files (Some ''name'')) = Inr ordered \<and>
      sorted (map lower ordered) \<and> mset ordered = mset files \<and>
      (\<forall>k. filter (\<lambda>p. lower p = k) ordered = filter (\<lambda>p. lower p = k) files) \<and>
      (distinct (map lower files) \<longrightarrow>
         snd (sort_pdfs sys files (Some ''^name'')) = Inr (rev ordered))) \<and>
   sort_pdfs sys files None = ([], Inr files)"
proof -
  have "sort_pdfs sys files None = ([], Inr files)"
    by (simp add: sort_pdfs_def)
  moreover have "distinct (map lower files) \<longrightarrow>
    snd (sort_pdfs sys files (Some ''^name'')) = Inr (rev (sort_key lower files))"
    by (simp add: sort_pdfs_name_desc sort_key_rev_distinct)
  ultimately show ?thesis
    by (simp add: sort_pdfs_name sort_key_stable)
qed

theorem sort_pdfs_by_name_sample:
  "distinct (map lower [''/docs/b.pdf'', ''/docs/C.pdf'', ''/docs/a.pdf'']) \<and>
   snd (sort_pdfs docs_os [''/docs/b.pdf'', ''/docs/C.pdf'', ''/docs/a.pdf''] (Some ''name'')) =
     Inr [''/docs/a.pdf'', ''/docs/b.pdf'', ''/docs/C.pdf''] \<and>
   snd (sort_pdfs docs_os [''/docs/b.pdf'', ''/docs/C.pdf'', ''/docs/a.pdf''] (Some ''^name'')) =
     Inr [''/docs/C.pdf'', ''/docs/b.pdf'', ''/docs/a.pdf'']"
proof -
  have d: "distinct (map lower [''/docs/b.pdf'', ''/docs/C.pdf'', ''/docs/a.pdf''])"
    by code_simp
  have n: "snd (sort_pdfs docs_os [''/docs/b.pdf'', ''/docs/C.pdf'', ''/docs/a.pdf''] (Some ''name'')) =
     Inr [''/docs/a.pdf'', ''/docs/b.pdf'', ''/docs/C.pdf'']"
    by code_simp
  show ?thesis
    using sort_pdfs_by_name [of docs_os "[''/docs/b.pdf'', ''/docs/C.pdf'', ''/docs/a.pdf'']"] d n
    by auto
qed

section \<open>The compressor\<close>

lemma compress_pages_ok:
  "list_all (page_ok lib) reads \<Longrightarrow>
   compress_pages lib reads added = Inr (added @ concat (map (compressed_page lib) reads))"
  by (induction reads arbitrary: added)
     (auto simp: page_ok_def compressed_page_def split: sum.splits)

lemma compress_pages_fail:
  "\<not> list_all (page_ok lib) reads \<Longrightarrow>
   \<exists>e. compress_pages lib reads added = Inl e \<and>
       list_ex (\<lambda>r. case r of Inl e' \<Rightarrow> e = e'
                     | Inr page \<Rightarrow> compress_content_streams lib page = Inl e) reads"
proof (induction reads arbitrary: added)
  case Nil
  then show ?case by simp
next
  case (Cons r rs)
  show ?case
  proof (cases "page_ok lib r")
    case True
    then obtain page page' where r: "r = Inr page"
      and c: "compress_content_streams lib page = Inr page'"
      by (auto simp: page_ok_def split: sum.splits)
    have "\<not> list_all (page_ok lib) rs"
      using True Cons.prems by simp
    then obtain e where "compress_pages lib rs (added @ [page']) = Inl e"
      and "list_ex (\<lambda>r. case r of Inl e' \<Rightarrow> e = e'
                     | Inr page \<Rightarrow> compress_content_streams lib page = Inl e) rs"
      using Cons.IH by blast
    then show ?thesis
      using r c by simp
  next
    case False
    then show ?thesis
      by (auto simp: page_ok_def split: sum.splits)
  qed
qed

text \<open>When every step completes, \<^verbatim>\<open>_compress_pdf\<close> writes the output and returns.\<close>

lemma compress_pdf_ok:
  "steps_ok lib file output_file \<Longrightarrow>
   \<exists>pages size_after. compress_pdf lib file output_file =
      \<lparr>console = [], written = [(output_file, pages)], outcome = Inr (output_file, size_after)\<rparr>"
  by (auto simp: steps_ok_def compress_pdf_def compress_pages_ok split: sum.splits)

lemma compress_pdf_fail:
  assumes "\<not> steps_ok lib file output_file"
  shows "\<exists>e. compress_pdf lib file output_file = \<lparr>console = [], written = [], outcome = Inl e\<rparr> \<and>
             raised_by lib file output_file e"
proof (cases "pdfreader lib file")
  case (Inl e)
  then show ?thesis
    by (simp add: compress_pdf_def raised_by_def)
next
  case (Inr reads)
  show ?thesis
  proof (cases "list_all (page_ok lib) reads")
    case True
    then show ?thesis
      using assms Inr
      by (auto simp: steps_ok_def compress_pdf_def raised_by_def compress_pages_ok split: sum.splits)
  next
    case False
    then show ?thesis
      using compress_pages_fail [OF False, of "[]"] Inr
      by (auto simp: compress_pdf_def raised_by_def)
  qed
qed

text \<open>
  C8. There is no recovery in the compressor. When opening the reader, fetching a page,
  compressing a content stream or writing the output raises, an exception that the
  library raised leaves \<^verbatim>\<open>_compress_pdf\<close>; the \<^verbatim>\<open>compress\<close> command ends with an
  exception too (the same one, once the size of the input has been read) and prints no
  line of its report.
\<close>

theorem compress_failure_propagates:
  assumes "\<not> steps_ok lib file output"
  shows "\<exists>e. outcome (compress_pdf lib file output) = Inl e \<and> raised_by lib file output e \<and>
           (\<forall>size_before. getsize sys file = Inr size_before \<longrightarrow>
              outcome (compress sys lib file output) = Inl e) \<and>
           (\<exists>e'. outcome (compress sys lib file output) = Inl e') \<and>
           console (compress sys lib file output) = []"
proof -
  obtain e where e: "compress_pdf lib file output = \<lparr>console = [], written = [], outcome = Inl e\<rparr>"
    and r: "raised_by lib file output e"
    using compress_pdf_fail [OF assms] by blast
  show ?thesis
    using e r by (cases "getsize sys file") (auto simp: compress_def)
qed

theorem compress_failure_propagates_sample:
  "\<not> steps_ok docs_lib ''/docs/torn.pdf'' ''compressed.pdf'' \<and>
   outcome (compress_pdf docs_lib ''/docs/torn.pdf'' ''compressed.pdf'') =
     Inl (OtherError ''Could not read object'') \<and>
   outcome (compress docs_os docs_lib ''/docs/torn.pdf'' ''compressed.pdf'') =
     Inl (OtherError ''Could not read object'') \<and>
   console (compress docs_os docs_lib ''/docs/torn.pdf'' ''compressed.pdf'') = []"
proof -
  have h: "\<not> steps_ok docs_lib ''/docs/torn.pdf'' ''compressed.pdf''"
    by code_simp
  have g: "getsize docs_os ''/docs/torn.pdf'' = Inr 700"
    by code_simp
  have o: "outcome (compress_pdf docs_lib ''/docs/torn.pdf'' ''compressed.pdf'') =
     Inl (OtherError ''Could not read object'')"
    by code_simp
  show ?thesis
    using compress_failure_propagates [OF h, of docs_os] h g o by auto
qed

text \<open>When the size read before compressing is not 0, the report ends with the size
  after and the reduction \<open>(size_before - size_after) / size_before * 100\<close>.\<close>

lemma compress_reports_reduction:
  assumes "getsize sys file = Inr size_before" and "size_before \<noteq> 0"
    and "outcome (compress_pdf lib file output) = Inr (output_file, size_after)"
  shows "console (compress sys lib file output) =
           [Compressed file output_file, SizeBefore size_before,
            SizeAfter size_after
              (rat_of_int (size_before - size_after) / rat_of_int size_before * 100)] \<and>
         outcome (compress sys lib file output) = Inr ()"
  using assms by (simp add: compress_def reduction_def)

text \<open>The division has no guard: whenever the size read is 0 and the compression
  returns, the command ends with \<open>ZeroDivisionError\<close>.\<close>

lemma compress_unguarded:
  assumes "getsize sys file = Inr 0"
    and "outcome (compress_pdf lib file output) = Inr (output_file, size_after)"
  shows "outcome (compress sys lib file output) = Inl ZeroDivisionError"
  using assms by (simp add: compress_def reduction_def)

text \<open>
  C1. The reduction is to be computed without a division fault also for an input of
  size 0. The command divides by \<open>size_before\<close> without a guard: on \<^verbatim>\<open>/dev/stdin\<close>,
  a pipe of size 0 that delivers a PDF, the output file is written, two lines of the
  report are printed, and the command ends with \<open>ZeroDivisionError\<close>.
\<close>

theorem compress_zero_size_divides_by_zero:
  "compress docs_os docs_lib ''/dev/stdin'' ''compressed.pdf'' =
     \<lparr>console = [Compressed ''/dev/stdin'' ''compressed.pdf'', SizeBefore 0],
      written = [(''compressed.pdf'', [Page ''/dev/stdin'' 0 True])],
      outcome = Inl ZeroDivisionError\<rparr>"
  by code_simp

section \<open>The merge command\<close>

lemma previewed_append: "previewed (xs @ ys) = previewed xs @ previewed ys"
  by (simp add: previewed_def map_filter_def)

lemma attempted_append: "attempted (xs @ ys) = attempted xs @ attempted ys"
  by (simp add: attempted_def map_filter_def)

lemma previewed_items: "previewed (display_items index pdfs) = pdfs"
  by (induction pdfs arbitrary: index) (simp_all add: previewed_def map_filter_def)

lemma attempted_items: "attempted (display_items index pdfs) = []"
  by (induction pdfs arbitrary: index) (simp_all add: attempted_def map_filter_def)

lemma previewed_display: "previewed (display_pdfs pdfs) = pdfs"
  using previewed_items [of 0 pdfs] by (simp add: display_pdfs_def previewed_def map_filter_def)

lemma attempted_display: "attempted (display_pdfs pdfs) = []"
  using attempted_items [of 0 pdfs] by (simp add: display_pdfs_def attempted_def map_filter_def)

lemma previewed_lines: "previewed (map (append_line lib) files) = []"
  by (induction files) (simp_all add: previewed_def map_filter_def preview_line)

lemma sort_pdfs_quiet:
  "previewed (fst (sort_pdfs sys files sort_option)) = [] \<and>
   attempted (fst (sort_pdfs sys files sort_option)) = []"
  using sort_pdfs_console [of sys files sort_option]
  by (auto simp: previewed_def attempted_def map_filter_def)

text \<open>
  C3, as amended. The candidate set is resolved by the first mode that is supplied, in
  the order explicit file arguments, list-file, directory and pattern. Explicit files,
  when there are any, are each joined with the directory. Otherwise a list-file, when
  one is given, supplies its trimmed lines that end with \<^verbatim>\<open>.pdf\<close>, and it does so
  also when there is no such line: the candidate set is then empty, and the pattern is
  not consulted. The pattern is expanded only when neither files nor a list-file is
  given.
\<close>

theorem candidates_precedence:
  "(files \<noteq> [] \<longrightarrow>
      candidates sys files dir pattern from_list = Inr (map (path_join sys dir) files)) \<and>
   (files = [] \<and> from_list = Some list_file \<and> list_file \<noteq> [] \<and>
    readlines sys list_file = Inr lines \<longrightarrow>
      candidates sys files dir pattern from_list =
        Inr (map strip (filter (\<lambda>line. suffix ''.pdf'' (strip line)) lines))) \<and>
   (files = [] \<and> from_list = None \<longrightarrow>
      candidates sys files dir pattern from_list = Inr (glob sys (path_join sys dir pattern)))"
  by (simp add: candidates_def endswith_suffix)

theorem candidates_precedence_sample:
  "candidates docs_os [''b.pdf''] ''/docs'' ''*.pdf'' (Some ''/docs/list.txt'') =
     Inr [''/docs/b.pdf''] \<and>
   candidates docs_os [] ''/docs'' ''*.pdf'' (Some ''/docs/list.txt'') = Inr [] \<and>
   candidates docs_os [] ''/docs'' ''*.pdf'' None =
     Inr [''/docs/b.pdf'', ''/docs/a.pdf'', ''/docs/blank.pdf'']"
proof -
  have j: "map (path_join docs_os ''/docs'') [''b.pdf''] = [''/docs/b.pdf'']"
    by code_simp
  have r: "readlines docs_os ''/docs/list.txt'' = Inr [''/docs/notes.txt'' @ [CHR 0x0A]]"
    by code_simp
  have l: "map strip (filter (\<lambda>line. suffix ''.pdf'' (strip line))
      [''/docs/notes.txt'' @ [CHR 0x0A]]) = []"
    by code_simp
  have g: "glob docs_os (path_join docs_os ''/docs'' ''*.pdf'') =
     [''/docs/b.pdf'', ''/docs/a.pdf'', ''/docs/blank.pdf'']"
    by code_simp
  show ?thesis
    using j r l g
      candidates_precedence [where sys = docs_os and files = "[''b.pdf'']" and dir = "''/docs''"
        and pattern = "''*.pdf''" and from_list = "Some ''/docs/list.txt''"
        and list_file = "''/docs/list.txt''" and lines = "[''/docs/notes.txt'' @ [CHR 0x0A]]"]
      candidates_precedence [where sys = docs_os and files = "[]" and dir = "''/docs''"
        and pattern = "''*.pdf''" and from_list = "Some ''/docs/list.txt''"
        and list_file = "''/docs/list.txt''" and lines = "[''/docs/notes.txt'' @ [CHR 0x0A]]"]
      candidates_precedence [where sys = docs_os and files = "[]" and dir = "''/docs''"
        and pattern = "''*.pdf''" and from_list = None
        and list_file = "''/docs/list.txt''" and lines = "[''/docs/notes.txt'' @ [CHR 0x0A]]"]
    by simp
qed

text \<open>A list-file without a \<^verbatim>\<open>.pdf\<close> line gives no candidate, although the pattern
  matches three files.\<close>

theorem list_file_no_fallthrough:
  "candidates docs_os [] ''/docs'' ''*.pdf'' (Some ''/docs/list.txt'') = Inr [] \<and>
   glob docs_os (path_join docs_os ''/docs'' ''*.pdf'') =
     [''/docs/b.pdf'', ''/docs/a.pdf'', ''/docs/blank.pdf'']"
  by code_simp

text \<open>
  C4, as amended. With a \<^verbatim>\<open>--sort\<close> option and a non-empty validated candidate set,
  the numbered preview is printed before the sort is applied: the console begins with
  the preview of the validated candidates in discovery order, followed by what the
  sorter prints. The files are then appended in the sorted order, so the preview shows
  the order of the merge only when sorting leaves the order as it was.
\<close>

theorem merge_previews_before_sort:
  assumes "candidates sys files dir pattern from_list = Inr found"
    and "opt \<noteq> []"
    and "snd (sort_pdfs sys (check_pdfs sys found) (Some opt)) = Inr ordered"
    and "ordered \<noteq> []" and "yes \<or> answer"
  shows "(\<exists>rest. console (merge sys lib answer yes files dir pattern from_list (Some opt) output) =
            display_pdfs (check_pdfs sys found) @
            fst (sort_pdfs sys (check_pdfs sys found) (Some opt)) @ rest) \<and>
         previewed (console (merge sys lib answer yes files dir pattern from_list (Some opt) output)) =
           check_pdfs sys found \<and>
         attempted (console (merge sys lib answer yes files dir pattern from_list (Some opt) output)) =
           ordered"
proof -
  obtain con2 where s: "sort_pdfs sys (check_pdfs sys found) (Some opt) = (con2, Inr ordered)"
    using assms(3) by (cases "sort_pdfs sys (check_pdfs sys found) (Some opt)") simp
  have q: "previewed con2 = []" "attempted con2 = []"
    using sort_pdfs_quiet [of sys "check_pdfs sys found" "Some opt"] s by simp_all
  define con3 where "con3 = (if \<not> yes then [ConfirmPrompt] else [])"
  have q3: "previewed con3 = []" "attempted con3 = []"
    by (simp_all add: con3_def previewed_def attempted_def map_filter_def)
  obtain last where c: "console (merge sys lib answer yes files dir pattern from_list (Some opt) output) =
      display_pdfs (check_pdfs sys found) @ con2 @ con3 @ map (append_line lib) ordered @ last"
    and l: "previewed last = []" "attempted last = []"
  proof (cases "outcome (merge_pdfs lib ordered output)")
    case (Inl e)
    then have "console (merge sys lib answer yes files dir pattern from_list (Some opt) output) =
      display_pdfs (check_pdfs sys found) @ con2 @ con3 @ map (append_line lib) ordered @ []"
      using assms s by (auto simp: merge_def Let_def con3_def console_merge_pdfs)
    then show ?thesis
      using that [of "[]"] by (simp add: previewed_def attempted_def map_filter_def)
  next
    case (Inr v)
    obtain output_file merged_count where v: "v = (output_file, merged_count)"
      by (cases v)
    have "console (merge sys lib answer yes files dir pattern from_list (Some opt) output) =
      display_pdfs (check_pdfs sys found) @ con2 @ con3 @ map (append_line lib) ordered @
        [if merged_count \<noteq> 0 then Merged merged_count output_file else NoValidPdfs]"
      using assms s Inr v by (auto simp: merge_def Let_def con3_def console_merge_pdfs)
    then show ?thesis
      using that [of "[if merged_count \<noteq> 0 then Merged merged_count output_file else NoValidPdfs]"]
      by (simp add: previewed_def attempted_def map_filter_def)
  qed
  show ?thesis
    using c l q q3 s
    by (simp add: previewed_append attempted_append previewed_display attempted_display
        previewed_lines attempted_lines)
qed

theorem merge_previews_before_sort_sample:
  "previewed (console (merge docs_os docs_lib False True [''a.pdf'', ''b.pdf''] ''/docs'' ''*.pdf''
      None (Some ''size'') ''merged.pdf'')) = [''/docs/a.pdf'', ''/docs/b.pdf''] \<and>
   attempted (console (merge docs_os docs_lib False True [''a.pdf'', ''b.pdf''] ''/docs'' ''*.pdf''
      None (Some ''size'') ''merged.pdf'')) = [''/docs/b.pdf'', ''/docs/a.pdf'']"
proof -
  have c: "candidates docs_os [''a.pdf'', ''b.pdf''] ''/docs'' ''*.pdf'' None =
      Inr [''/docs/a.pdf'', ''/docs/b.pdf'']"
    by code_simp
  have k: "check_pdfs docs_os [''/docs/a.pdf'', ''/docs/b.pdf''] = [''/docs/a.pdf'', ''/docs/b.pdf'']"
    by code_simp
  have o: "''size'' \<noteq> []"
    by simp
  have s: "snd (sort_pdfs docs_os (check_pdfs docs_os [''/docs/a.pdf'', ''/docs/b.pdf''])
      (Some ''size'')) = Inr [''/docs/b.pdf'', ''/docs/a.pdf'']"
    by code_simp
  have n: "[''/docs/b.pdf'', ''/docs/a.pdf''] \<noteq> []"
    by simp
  have y: "True \<or> False"
    by simp
  show ?thesis
    using merge_previews_before_sort [OF c o s n y, of docs_lib "''merged.pdf''"] k by simp
qed

text \<open>With \<^verbatim>\<open>--sort name\<close> on \<^verbatim>\<open>b.pdf\<close> and \<^verbatim>\<open>a.pdf\<close>, the preview lists
  \<^verbatim>\<open>b.pdf\<close> first and the merge appends \<^verbatim>\<open>a.pdf\<close> first.\<close>

theorem merge_preview_unsorted:
  "previewed (console (merge docs_os docs_lib False True [''b.pdf'', ''a.pdf''] ''/docs'' ''*.pdf''
      None (Some ''name'') ''merged.pdf'')) = [''/docs/b.pdf'', ''/docs/a.pdf''] \<and>
   attempted (console (merge docs_os docs_lib False True [''b.pdf'', ''a.pdf''] ''/docs'' ''*.pdf''
      None (Some ''name'') ''merged.pdf'')) = [''/docs/a.pdf'', ''/docs/b.pdf'']"
  by code_simp

end
